theory Spec2Isabelle
  imports Main "HOL-Library.Word"
begin

text \<open>
  The API keys of ZenML: the models of \<open>zenml/models/api_key_models.py\<close>, the schema of
  \<open>zenml/zen_stores/schemas/api_key_schemas.py\<close> and the rotate command of
  \<open>zenml/cli/api_key.py\<close>, as functions over explicit state, clock and random input.
  The definitions come first, the lemmas and the theorems about them after.
\<close>

section \<open>Values shared by the API key models\<close>

text \<open>
  Python exceptions that the modelled code can raise or let through. A raising call is a
  result \<open>Inl e\<close>; a returning call is \<open>Inr v\<close>.
\<close>

datatype exn =
    ValueError string
  | KeyError string
  | UnknownHashError
  | OverflowError
  | Base64Error
  | UnicodeDecodeError
  | JSONDecodeError
  | ValidationError

text \<open>
  A naive \<open>datetime\<close> is the number of microseconds on its wall clock; a \<open>timedelta\<close> is a
  number of microseconds. \<open>UUID\<close> values are 128-bit words.
\<close>

type_synonym datetime = int
type_synonym timedelta = int
type_synonym uuid = "128 word"

text \<open>
  The system clock at the moment of a call: the instant as a UTC wall-clock reading, and the
  offset of the local time zone. \<open>datetime.utcnow()\<close> reads the first, \<open>datetime.now()\<close>
  the local wall clock.
\<close>

record clock =
  instant :: datetime
  utcoffset :: timedelta

definition datetime_utcnow :: "clock \<Rightarrow> datetime" where
  "datetime_utcnow clk = instant clk"

definition datetime_now :: "clock \<Rightarrow> datetime" where
  "datetime_now clk = instant clk + utcoffset clk"

text \<open>
  \<open>timedelta(minutes=m)\<close>: the constructor normalises to days, seconds and microseconds and
  raises \<open>OverflowError\<close> when the number of days leaves \<open>\<plusminus>999999999\<close>.
\<close>

definition timedelta_minutes :: "int \<Rightarrow> exn + timedelta" where
  "timedelta_minutes m =
     (if \<bar>m div 1440\<bar> > 999999999 then Inl OverflowError else Inr (m * 60000000))"

text \<open>
  \<open>CryptContext(schemes=["bcrypt"], deprecated="auto")\<close> comes from the passlib library. The
  models take it as a parameter: \<open>ctx_hash salt secret\<close> is \<open>context.hash(secret)\<close> with the
  salt drawn for that call made explicit, \<open>ctx_verify secret hash\<close> is
  \<open>context.verify(secret, hash)\<close>, which may raise.
\<close>

record crypt_context =
  ctx_hash :: "string \<Rightarrow> string \<Rightarrow> string"
  ctx_verify :: "string \<Rightarrow> string \<Rightarrow> exn + bool"

text \<open>
  The random material one call consumes: the \<open>uuid4()\<close> of a new row, the result of
  \<open>token_hex(32)\<close> and the salt of the bcrypt hash.
\<close>

record entropy =
  fresh_uuid :: uuid
  token_hex :: string
  salt :: string

section \<open>Models: \<open>zenml/models/api_key_models.py\<close>\<close>

text \<open>
  The response models. The workspace and user views of the base class are represented by
  their ids.
\<close>

record APIKeyResponseModel =
  resp_id :: uuid
  resp_name :: string
  resp_description :: string
  resp_workspace :: uuid
  resp_user :: uuid
  resp_created :: datetime
  resp_updated :: datetime
  resp_key :: "string option"
  resp_active :: bool
  resp_retain_period_minutes :: int
  resp_last_used :: datetime
  resp_last_rotated :: datetime

record APIKeyInternalResponseModel = APIKeyResponseModel +
  resp_previous_key :: "string option"

text \<open>The hash that stands in for a slot that must not match: the empty string.\<close>

definition dummy_hash :: string where
  "dummy_hash = []"

text \<open>
  The value of \<open>key_hash\<close> at the first call of \<open>context.verify\<close> in \<open>verify_key\<close>
  (lines 149 to 152).
\<close>

definition current_key_hash :: "APIKeyInternalResponseModel \<Rightarrow> string" where
  "current_key_hash self =
     (case resp_key self of
        Some k \<Rightarrow> if resp_active self then k else dummy_hash
      | None \<Rightarrow> dummy_hash)"

text \<open>
  The value of \<open>key_hash\<close> at the second call (lines 156 to 166). The comparison reads
  \<open>datetime.now()\<close>, subtracts \<open>last_rotated\<close>, then builds the \<open>timedelta\<close>, which can raise.
\<close>

definition previous_key_hash :: "clock \<Rightarrow> APIKeyInternalResponseModel \<Rightarrow> exn + string" where
  "previous_key_hash clk self =
     (case resp_previous_key self of
        None \<Rightarrow> Inr dummy_hash
      | Some pk \<Rightarrow>
          if resp_active self \<and> resp_retain_period_minutes self > 0 then
            (case timedelta_minutes (resp_retain_period_minutes self) of
               Inl e \<Rightarrow> Inl e
             | Inr period \<Rightarrow>
                 if datetime_now clk - resp_last_rotated self < period
                 then Inr pk else Inr dummy_hash)
          else Inr dummy_hash)"

text \<open>
  \<open>APIKeyInternalResponseModel.verify_key\<close>: both verifications run, in this order, and an
  exception of either call leaves the method.
\<close>

definition verify_key ::
  "crypt_context \<Rightarrow> clock \<Rightarrow> APIKeyInternalResponseModel \<Rightarrow> string \<Rightarrow> exn + bool" where
  "verify_key context clk self key =
     (case ctx_verify context key (current_key_hash self) of
        Inl e \<Rightarrow> Inl e
      | Inr result \<Rightarrow>
          (case previous_key_hash clk self of
             Inl e \<Rightarrow> Inl e
           | Inr key_hash \<Rightarrow>
               (case ctx_verify context key key_hash of
                  Inl e \<Rightarrow> Inl e
                | Inr previous_result \<Rightarrow> Inr (result \<or> previous_result))))"

record APIKeyRequestModel =
  req_name :: string
  req_description :: string
  req_workspace :: uuid
  req_user :: uuid

record APIKeyRotateRequestModel =
  rot_retain_period_minutes :: int

text \<open>
  An update request. Every field is optional; \<open>None\<close> is Python's \<open>None\<close>.
\<close>

record APIKeyUpdateModel =
  upd_name :: "string option"
  upd_description :: "string option"
  upd_active :: "bool option"

record APIKeyInternalUpdateModel = APIKeyUpdateModel +
  upd_update_last_used :: bool

section \<open>Schema: \<open>zenml/zen_stores/schemas/api_key_schemas.py\<close>\<close>

record APIKeySchema =
  schema_id :: uuid
  schema_created :: datetime
  schema_updated :: datetime
  schema_name :: string
  schema_description :: string
  schema_key :: string
  schema_previous_key :: "string option"
  schema_retain_period :: int
  schema_active :: bool
  schema_last_used :: datetime
  schema_last_rotated :: datetime
  schema_workspace_id :: uuid
  schema_user_id :: uuid

definition to_model :: "APIKeySchema \<Rightarrow> APIKeyResponseModel" where
  "to_model self =
     \<lparr> resp_id = schema_id self,
       resp_name = schema_name self,
       resp_description = schema_description self,
       resp_workspace = schema_workspace_id self,
       resp_user = schema_user_id self,
       resp_created = schema_created self,
       resp_updated = schema_updated self,
       resp_key = None,
       resp_active = schema_active self,
       resp_retain_period_minutes = schema_retain_period self,
       resp_last_used = schema_last_used self,
       resp_last_rotated = schema_last_rotated self \<rparr>"

definition to_internal_model :: "APIKeySchema \<Rightarrow> APIKeyInternalResponseModel" where
  "to_internal_model self =
     \<lparr> resp_id = schema_id self,
       resp_name = schema_name self,
       resp_description = schema_description self,
       resp_workspace = schema_workspace_id self,
       resp_user = schema_user_id self,
       resp_created = schema_created self,
       resp_updated = schema_updated self,
       resp_key = Some (schema_key self),
       resp_active = schema_active self,
       resp_retain_period_minutes = schema_retain_period self,
       resp_last_used = schema_last_used self,
       resp_last_rotated = schema_last_rotated self,
       resp_previous_key = schema_previous_key self \<rparr>"

text \<open>
  \<open>APIKeySchema.rotate\<close>: one reading of \<open>datetime.utcnow()\<close> serves \<open>updated\<close> and
  \<open>last_rotated\<close>; the new key is \<open>token_hex(32)\<close> and is stored hashed.
\<close>

definition rotate ::
  "crypt_context \<Rightarrow> entropy \<Rightarrow> clock \<Rightarrow> APIKeySchema \<Rightarrow> APIKeyRotateRequestModel
     \<Rightarrow> APIKeySchema \<times> string" where
  "rotate context rnd clk self rotate_request =
     (let new_key = token_hex rnd in
      (self\<lparr> schema_updated := datetime_utcnow clk,
             schema_previous_key := Some (schema_key self),
             schema_retain_period := rot_retain_period_minutes rotate_request,
             schema_key := ctx_hash context (salt rnd) new_key,
             schema_last_rotated := datetime_utcnow clk \<rparr>,
       new_key))"

text \<open>
  \<open>APIKeySchema.from_request\<close>. The columns the constructor call leaves out take their
  declared defaults: no previous key, retain period 0, active.
\<close>

definition from_request ::
  "crypt_context \<Rightarrow> entropy \<Rightarrow> clock \<Rightarrow> APIKeyRequestModel \<Rightarrow> APIKeySchema \<times> string" where
  "from_request context rnd clk request =
     (let key = token_hex rnd;
          hashed_key = ctx_hash context (salt rnd) key;
          now = datetime_utcnow clk in
      (\<lparr> schema_id = fresh_uuid rnd,
         schema_created = now,
         schema_updated = now,
         schema_name = req_name request,
         schema_description = req_description request,
         schema_key = hashed_key,
         schema_previous_key = None,
         schema_retain_period = 0,
         schema_active = True,
         schema_last_used = now,
         schema_last_rotated = now,
         schema_workspace_id = req_workspace request,
         schema_user_id = req_user request \<rparr>,
       key))"

text \<open>
  \<open>APIKeySchema.update\<close>. \<open>if update.name:\<close> holds for a string that is neither \<open>None\<close>
  nor empty; \<open>active\<close> is compared with \<open>None\<close>.
\<close>

definition update :: "clock \<Rightarrow> APIKeySchema \<Rightarrow> 'a APIKeyUpdateModel_scheme \<Rightarrow> APIKeySchema" where
  "update clk self upd =
     self\<lparr> schema_name :=
             (case upd_name upd of
                Some n \<Rightarrow> if n \<noteq> [] then n else schema_name self
              | None \<Rightarrow> schema_name self),
           schema_description :=
             (case upd_description upd of
                Some d \<Rightarrow> if d \<noteq> [] then d else schema_description self
              | None \<Rightarrow> schema_description self),
           schema_active :=
             (case upd_active upd of
                Some a \<Rightarrow> a
              | None \<Rightarrow> schema_active self),
           schema_updated := datetime_utcnow clk \<rparr>"

definition internal_update ::
  "clock \<Rightarrow> APIKeySchema \<Rightarrow> APIKeyInternalUpdateModel \<Rightarrow> APIKeySchema" where
  "internal_update clk self upd =
     (let self' = update clk self upd in
      if upd_update_last_used upd
      then self'\<lparr> schema_last_used := schema_updated self' \<rparr>
      else self')"

text \<open>
  The records that the operations of the schema produce: made by \<open>from_request\<close>, then
  changed by \<open>update\<close>, \<open>internal_update\<close> and \<open>rotate\<close>.
\<close>

inductive lifecycle :: "APIKeySchema \<Rightarrow> bool" where
  created: "lifecycle (fst (from_request context rnd clk request))"
| updated: "lifecycle s \<Longrightarrow> lifecycle (update clk s (upd :: APIKeyUpdateModel))"
| internally_updated: "lifecycle s \<Longrightarrow> lifecycle (internal_update clk s upd)"
| rotated: "lifecycle s \<Longrightarrow> lifecycle (fst (rotate context rnd clk s rotate_request))"

text \<open>
  A constructor argument of a pydantic model is either left out or given; a given value of
  an optional field may be \<open>None\<close>.
\<close>

datatype 'a arg = Omitted | Given 'a

section \<open>The bearer token: \<open>APIKey.encode\<close> and \<open>APIKey.decode_api_key\<close>\<close>

text \<open>
  Text and bytes. A Python \<open>str\<close> is modelled by the \<open>string\<close> of its UTF-8 bytes and
  \<open>bytes\<close> by the \<open>string\<close> itself, so \<open>s.encode()\<close> is the identity and
  \<open>b.decode()\<close> succeeds exactly on well-formed UTF-8, which \<open>utf8_valid\<close> decides.
\<close>

definition byte :: "char \<Rightarrow> nat" where
  "byte c = of_char c"

definition continuation :: "char \<Rightarrow> bool" where
  "continuation c \<longleftrightarrow> 128 \<le> byte c \<and> byte c \<le> 191"

fun utf8_valid :: "string \<Rightarrow> bool" where
  "utf8_valid [] = True"
| "utf8_valid (c # cs) =
     (if byte c < 128 then utf8_valid cs
      else if 194 \<le> byte c \<and> byte c \<le> 223 then
        (case cs of
           c1 # r \<Rightarrow> continuation c1 \<and> utf8_valid r
         | _ \<Rightarrow> False)
      else if 224 \<le> byte c \<and> byte c \<le> 239 then
        (case cs of
           c1 # c2 # r \<Rightarrow>
             continuation c1 \<and> continuation c2
             \<and> (if byte c = 224 then 160 \<le> byte c1 else True)
             \<and> (if byte c = 237 then byte c1 \<le> 159 else True)
             \<and> utf8_valid r
         | _ \<Rightarrow> False)
      else if 240 \<le> byte c \<and> byte c \<le> 244 then
        (case cs of
           c1 # c2 # c3 # r \<Rightarrow>
             continuation c1 \<and> continuation c2 \<and> continuation c3
             \<and> (if byte c = 240 then 144 \<le> byte c1 else True)
             \<and> (if byte c = 244 then byte c1 \<le> 143 else True)
             \<and> utf8_valid r
         | _ \<Rightarrow> False)
      else False)"

text \<open>
  Modelled from the spec: \<open>b64_encode\<close> and \<open>b64_decode\<close> of
  \<open>zenml.utils.string_utils\<close>, which are not among the sources. Section 6 of the
  specification calls the token the base64 encoding of a UTF-8 JSON object. The model is
  base64 with the standard alphabet and \<open>=\<close> padding, from text to text; decoding rejects
  every character outside the alphabet and every length that is not a multiple of four, and
  then decodes the bytes as UTF-8.
\<close>

definition b64_char :: "nat \<Rightarrow> char" where
  "b64_char n =
     char_of (if n < 26 then 65 + n else if n < 52 then 71 + n else if n < 62 then n - 4
              else if n = 62 then 43 else (47::nat))"

definition b64_val :: "char \<Rightarrow> nat option" where
  "b64_val c =
     (let n = of_char c :: nat in
      if 65 \<le> n \<and> n \<le> 90 then Some (n - 65)
      else if 97 \<le> n \<and> n \<le> 122 then Some (n - 71)
      else if 48 \<le> n \<and> n \<le> 57 then Some (n + 4)
      else if n = 43 then Some 62
      else if n = 47 then Some 63
      else None)"

fun b64encode :: "string \<Rightarrow> string" where
  "b64encode [] = []"
| "b64encode [a] =
     [b64_char (byte a div 4), b64_char (byte a mod 4 * 16), CHR ''='', CHR ''='']"
| "b64encode [a, b] =
     [b64_char (byte a div 4), b64_char (byte a mod 4 * 16 + byte b div 16),
      b64_char (byte b mod 16 * 4), CHR ''='']"
| "b64encode (a # b # c # rest) =
     [b64_char (byte a div 4), b64_char (byte a mod 4 * 16 + byte b div 16),
      b64_char (byte b mod 16 * 4 + byte c div 64), b64_char (byte c mod 64)]
     @ b64encode rest"

fun b64decode :: "string \<Rightarrow> string option" where
  "b64decode [] = Some []"
| "b64decode (w # x # y # z # rest) =
     (if rest = [] \<and> z = CHR ''='' then
        (if y = CHR ''='' then
           (case (b64_val w, b64_val x) of
              (Some p, Some q) \<Rightarrow> Some [char_of (p * 4 + q div 16)]
            | _ \<Rightarrow> None)
         else
           (case (b64_val w, b64_val x, b64_val y) of
              (Some p, Some q, Some r) \<Rightarrow>
                Some [char_of (p * 4 + q div 16), char_of (q mod 16 * 16 + r div 4)]
            | _ \<Rightarrow> None))
      else
        (case (b64_val w, b64_val x, b64_val y, b64_val z) of
           (Some p, Some q, Some r, Some s) \<Rightarrow>
             (case b64decode rest of
                Some bytes \<Rightarrow>
                  Some (char_of (p * 4 + q div 16) # char_of (q mod 16 * 16 + r div 4)
                        # char_of (r mod 4 * 64 + s) # bytes)
              | None \<Rightarrow> None)
         | _ \<Rightarrow> None))"
| "b64decode _ = None"

definition b64_encode :: "string \<Rightarrow> string" where
  "b64_encode inp = b64encode inp"

definition b64_decode :: "string \<Rightarrow> exn + string" where
  "b64_decode inp =
     (case b64decode inp of
        None \<Rightarrow> Inl Base64Error
      | Some decoded_bytes \<Rightarrow>
          if utf8_valid decoded_bytes then Inr decoded_bytes else Inl UnicodeDecodeError)"

text \<open>
  \<open>str(uuid)\<close>: 32 lower-case hexadecimal digits in groups of 8, 4, 4, 4 and 12. Reading
  a UUID ignores hyphens and accepts digits of either case.
\<close>

definition hex_digit :: "nat \<Rightarrow> char" where
  "hex_digit d = char_of (if d < 10 then 48 + d else 87 + d)"

definition hex_val :: "char \<Rightarrow> nat option" where
  "hex_val c =
     (let n = of_char c :: nat in
      if 48 \<le> n \<and> n \<le> 57 then Some (n - 48)
      else if 97 \<le> n \<and> n \<le> 102 then Some (n - 87)
      else if 65 \<le> n \<and> n \<le> 70 then Some (n - 55)
      else None)"

fun hex_of :: "nat \<Rightarrow> nat \<Rightarrow> string" where
  "hex_of 0 n = []"
| "hex_of (Suc w) n = hex_of w (n div 16) @ [hex_digit (n mod 16)]"

fun hex_parse :: "nat \<Rightarrow> string \<Rightarrow> nat option" where
  "hex_parse acc [] = Some acc"
| "hex_parse acc (c # cs) =
     (case hex_val c of None \<Rightarrow> None | Some d \<Rightarrow> hex_parse (acc * 16 + d) cs)"

definition uuid_str :: "uuid \<Rightarrow> string" where
  "uuid_str u =
     (let h = hex_of 32 (unat u) in
      take 8 h @ ''-'' @ take 4 (drop 8 h) @ ''-'' @ take 4 (drop 12 h) @ ''-''
      @ take 4 (drop 16 h) @ ''-'' @ drop 20 h)"

definition parse_uuid :: "string \<Rightarrow> uuid option" where
  "parse_uuid s =
     (let h = filter (\<lambda>c. c \<noteq> CHR ''-'') s in
      if length h = 32 then map_option of_nat (hex_parse 0 h) else None)"

record APIKey =
  apikey_id :: uuid
  apikey_key :: string

text \<open>
  Modelled from the spec: \<open>APIKey.json()\<close> and \<open>APIKey.parse_raw\<close>, which the class
  inherits from pydantic's \<open>BaseModel\<close>. Section 6 of the specification gives the payload:
  the UTF-8 JSON object \<open>{"id": "<uuid-string>", "key": "<raw-secret-string>"}\<close>. The
  writer escapes the quote, the backslash and the control characters of a string and leaves
  every other byte as it is. The reader accepts a JSON object whose values are strings, with
  white space between tokens, any order of members and members besides the two; of a
  repeated member the last one counts. An escape \<open>\u\<close> is read for a code point of the
  basic plane that is no surrogate.
\<close>

definition esc_char :: "char \<Rightarrow> string" where
  \<open>esc_char c =
     (if c = CHR 0x22 then [CHR 0x5C, CHR 0x22]
      else if c = CHR 0x5C then [CHR 0x5C, CHR 0x5C]
      else if c = CHR 0x0A then [CHR 0x5C, CHR ''n'']
      else if c = CHR 0x0D then [CHR 0x5C, CHR ''r'']
      else if c = CHR 0x09 then [CHR 0x5C, CHR ''t'']
      else if c = CHR 0x08 then [CHR 0x5C, CHR ''b'']
      else if c = CHR 0x0C then [CHR 0x5C, CHR ''f'']
      else if byte c < 32 then [CHR 0x5C, CHR ''u''] @ hex_of 4 (byte c)
      else [c])\<close>

definition json_string :: "string \<Rightarrow> string" where
  "json_string s = CHR 0x22 # concat (map esc_char s) @ [CHR 0x22]"

definition APIKey_json :: "APIKey \<Rightarrow> string" where
  \<open>APIKey_json self =
     ''{"id": '' @ json_string (uuid_str (apikey_id self))
     @ '', "key": '' @ json_string (apikey_key self) @ ''}''\<close>

datatype token = LBrace | RBrace | Colon | Comma | Str string

datatype lex_state = Outside | InString string | Escape string | Unicode string "nat list"

definition utf8_of_codepoint :: "nat \<Rightarrow> string option" where
  "utf8_of_codepoint n =
     (if n < 128 then Some [char_of n]
      else if n < 2048 then Some [char_of (192 + n div 64), char_of (128 + n mod 64)]
      else if 55296 \<le> n \<and> n \<le> 57343 then None
      else Some [char_of (224 + n div 4096), char_of (128 + n div 64 mod 64),
                 char_of (128 + n mod 64)])"

definition unescape :: "char \<Rightarrow> char option" where
  \<open>unescape c =
     (if c = CHR 0x22 \<or> c = CHR 0x5C \<or> c = CHR ''/'' then Some c
      else if c = CHR ''n'' then Some (CHR 0x0A)
      else if c = CHR ''r'' then Some (CHR 0x0D)
      else if c = CHR ''t'' then Some (CHR 0x09)
      else if c = CHR ''b'' then Some (CHR 0x08)
      else if c = CHR ''f'' then Some (CHR 0x0C)
      else None)\<close>

definition whitespace :: "char \<Rightarrow> bool" where
  "whitespace c \<longleftrightarrow> c = CHR '' '' \<or> c = CHR 0x0A \<or> c = CHR 0x0D \<or> c = CHR 0x09"

fun lex :: "lex_state \<Rightarrow> token list \<Rightarrow> string \<Rightarrow> token list option" where
  "lex Outside toks [] = Some (rev toks)"
| "lex Outside toks (c # cs) =
     (if whitespace c then lex Outside toks cs
      else if c = CHR ''{'' then lex Outside (LBrace # toks) cs
      else if c = CHR ''}'' then lex Outside (RBrace # toks) cs
      else if c = CHR '':'' then lex Outside (Colon # toks) cs
      else if c = CHR '','' then lex Outside (Comma # toks) cs
      else if c = CHR 0x22 then lex (InString []) toks cs
      else None)"
| "lex (InString acc) toks [] = None"
| "lex (InString acc) toks (c # cs) =
     (if c = CHR 0x22 then lex Outside (Str acc # toks) cs
      else if c = CHR 0x5C then lex (Escape acc) toks cs
      else if byte c < 32 then None
      else lex (InString (acc @ [c])) toks cs)"
| "lex (Escape acc) toks [] = None"
| "lex (Escape acc) toks (c # cs) =
     (if c = CHR ''u'' then lex (Unicode acc []) toks cs
      else (case unescape c of
              Some x \<Rightarrow> lex (InString (acc @ [x])) toks cs
            | None \<Rightarrow> None))"
| "lex (Unicode acc ds) toks [] = None"
| "lex (Unicode acc ds) toks (c # cs) =
     (case hex_val c of
        None \<Rightarrow> None
      | Some d \<Rightarrow>
          if length ds < 3 then lex (Unicode acc (ds @ [d])) toks cs
          else (case utf8_of_codepoint (foldl (\<lambda>v x. v * 16 + x) 0 (ds @ [d])) of
                  Some bytes \<Rightarrow> lex (InString (acc @ bytes)) toks cs
                | None \<Rightarrow> None))"

fun members :: "token list \<Rightarrow> (string \<times> string) list option" where
  "members (Str k # Colon # Str v # rest) =
     (case rest of
        [RBrace] \<Rightarrow> Some [(k, v)]
      | Comma # others \<Rightarrow> map_option ((#) (k, v)) (members others)
      | _ \<Rightarrow> None)"
| "members _ = None"

definition parse_object :: "token list \<Rightarrow> (string \<times> string) list option" where
  "parse_object toks =
     (case toks of
        [LBrace, RBrace] \<Rightarrow> Some []
      | LBrace # rest \<Rightarrow> members rest
      | _ \<Rightarrow> None)"

definition APIKey_parse_raw :: "string \<Rightarrow> exn + APIKey" where
  "APIKey_parse_raw b =
     (case lex Outside [] b of
        None \<Rightarrow> Inl JSONDecodeError
      | Some toks \<Rightarrow>
          (case parse_object toks of
             None \<Rightarrow> Inl JSONDecodeError
           | Some pairs \<Rightarrow>
               (case (map_of (rev pairs) ''id'', map_of (rev pairs) ''key'') of
                  (Some i, Some k) \<Rightarrow>
                    (case parse_uuid i of
                       Some u \<Rightarrow> Inr \<lparr> apikey_id = u, apikey_key = k \<rparr>
                     | None \<Rightarrow> Inl ValidationError)
                | _ \<Rightarrow> Inl ValidationError)))"

text \<open>
  \<open>APIKey.encode\<close> and \<open>APIKey.decode_api_key\<close>. Every exception of the two calls in
  the \<open>try\<close> block is replaced by \<open>ValueError("Invalid API key.")\<close>. The body of
  \<open>decode_api_key\<close> is first written over any two helpers, then with the two above.
\<close>

definition encode :: "APIKey \<Rightarrow> string" where
  "encode self = b64_encode (APIKey_json self)"

definition decode_api_key_with ::
  "(string \<Rightarrow> exn + string) \<Rightarrow> (string \<Rightarrow> exn + APIKey) \<Rightarrow> string \<Rightarrow> exn + APIKey" where
  "decode_api_key_with b64_decode_fn parse_raw_fn encoded_key =
     (case b64_decode_fn encoded_key of
        Inl e \<Rightarrow> Inl (ValueError ''Invalid API key.'')
      | Inr json_key \<Rightarrow>
          (case parse_raw_fn json_key of
             Inl e \<Rightarrow> Inl (ValueError ''Invalid API key.'')
           | Inr k \<Rightarrow> Inr k))"

definition decode_api_key :: "string \<Rightarrow> exn + APIKey" where
  "decode_api_key = decode_api_key_with b64_decode APIKey_parse_raw"

text \<open>
  \<open>APIKeyResponseModel.set_key\<close>.
\<close>

definition set_key :: "'a APIKeyResponseModel_scheme \<Rightarrow> string \<Rightarrow> 'a APIKeyResponseModel_scheme" where
  "set_key self key =
     self\<lparr> resp_key := Some (encode \<lparr> apikey_id = resp_id self, apikey_key = key \<rparr>) \<rparr>"

text \<open>
  Strings of 7-bit characters, for the proofs about well-formed UTF-8.
\<close>

definition ascii :: "string \<Rightarrow> bool" where
  "ascii s \<longleftrightarrow> list_all (\<lambda>c. byte c < 128) s"

section \<open>The command line: \<open>zenml/cli/api_key.py\<close>\<close>

text \<open>
  Modelled from the spec: \<open>Client.rotate_api_key\<close> and the store behind it, which are
  not among the sources. Section 6 of the specification gives the contract:
  \<open>rotate(name_or_id, retain_period)\<close> returns the record view with the new raw secret and
  fails with \<open>NotFound\<close> (a \<open>KeyError\<close>) when no record has that name or id. The store
  is the list of its rows. A call that leaves the retain period out builds the request
  \<open>APIKeyRotateRequestModel()\<close>, whose field has \<open>default=0\<close>.
\<close>

type_synonym zen_store = "APIKeySchema list"

definition new_APIKeyRotateRequestModel :: "int arg \<Rightarrow> APIKeyRotateRequestModel" where
  "new_APIKeyRotateRequestModel retain_period_minutes =
     \<lparr> rot_retain_period_minutes =
         (case retain_period_minutes of Omitted \<Rightarrow> 0 | Given m \<Rightarrow> m) \<rparr>"

definition Client_rotate_api_key ::
  "crypt_context \<Rightarrow> entropy \<Rightarrow> clock \<Rightarrow> zen_store \<Rightarrow> string \<Rightarrow> int arg
     \<Rightarrow> exn + zen_store \<times> APIKeyResponseModel" where
  "Client_rotate_api_key context rnd clk store name_id_or_prefix retain_period_minutes =
     (case find (\<lambda>row. schema_name row = name_id_or_prefix
                      \<or> uuid_str (schema_id row) = name_id_or_prefix) store of
        None \<Rightarrow> Inl (KeyError name_id_or_prefix)
      | Some row \<Rightarrow>
          (let (row', new_key) =
                 rotate context rnd clk row (new_APIKeyRotateRequestModel retain_period_minutes)
           in Inr (map (\<lambda>r. if schema_id r = schema_id row then row' else r) store,
                   set_key (to_model row') new_key)))"

text \<open>
  What \<open>cli_utils.declare\<close> prints in \<open>rotate_api_key\<close>: the success line, the new key
  value, and the line about the previous key with the number of minutes.
\<close>

datatype declared =
    Rotated string
  | NewKeyValue "string option"
  | PreviousRemainsValid int

text \<open>
  The command \<open>rotate_api_key(name_or_id, retain)\<close>. The only argument of the call of
  \<open>Client().rotate_api_key\<close> is \<open>name_id_or_prefix\<close>. A \<open>KeyError\<close> ends the command
  through \<open>cli_utils.error\<close>.
\<close>

definition rotate_api_key ::
  "crypt_context \<Rightarrow> entropy \<Rightarrow> clock \<Rightarrow> zen_store \<Rightarrow> string \<Rightarrow> int
     \<Rightarrow> exn + zen_store \<times> declared list" where
  "rotate_api_key context rnd clk store name_or_id retain =
     (case Client_rotate_api_key context rnd clk store name_or_id Omitted of
        Inl e \<Rightarrow> Inl e
      | Inr (store', api_key) \<Rightarrow>
          Inr (store',
               [Rotated name_or_id, NewKeyValue (resp_key api_key)]
               @ (if retain \<noteq> 0 then [PreviousRemainsValid retain] else [])))"

section \<open>The rotation policy and the verifier in the words of the specification\<close>

text \<open>
  \<open>previous_secret_is_valid(record, now)\<close>: the record is active, the retain period is
  positive, and less than the retain period (in minutes) has passed since \<open>last_rotated\<close>.
\<close>

definition previous_secret_is_valid :: "APIKeySchema \<Rightarrow> datetime \<Rightarrow> bool" where
  "previous_secret_is_valid record now \<longleftrightarrow>
     schema_active record \<and> schema_retain_period record > 0 \<and>
     now - schema_last_rotated record < schema_retain_period record * 60000000"

definition effective_current_hash :: "APIKeySchema \<Rightarrow> string" where
  "effective_current_hash record =
     (if schema_active record then schema_key record else dummy_hash)"

definition effective_previous_hash :: "APIKeySchema \<Rightarrow> datetime \<Rightarrow> string option" where
  "effective_previous_hash record now =
     (if previous_secret_is_valid record now then schema_previous_key record
      else Some dummy_hash)"

section \<open>A transparent context for worked examples\<close>

text \<open>
  Not bcrypt: the hash shows the secret. It has the shape the models rely on: a hash carries
  the \<open>$2b$\<close> marker and a salt, verification compares the secret, and a hash without the
  marker is answered by \<open>unknown\<close>, which is \<open>Inr False\<close> for a context that rejects
  quietly and \<open>Inl UnknownHashError\<close> for one that raises. The
  \<open>CryptContext(schemes=["bcrypt"])\<close> that \<open>verify_key\<close> builds is of the second kind: it
  answers \<open>False\<close> without raising only for the hash \<open>None\<close>.
\<close>

definition plain_hash :: "string \<Rightarrow> string \<Rightarrow> string" where
  "plain_hash slt secret = ''$2b$'' @ slt @ ''$'' @ secret"

definition plain_verify :: "exn + bool \<Rightarrow> string \<Rightarrow> string \<Rightarrow> exn + bool" where
  "plain_verify unknown secret h =
     (if take 4 h = ''$2b$''
      then Inr (drop 1 (dropWhile (\<lambda>c. c \<noteq> CHR ''$'') (drop 4 h)) = secret)
      else unknown)"

definition quiet_context :: crypt_context where
  "quiet_context = \<lparr> ctx_hash = plain_hash, ctx_verify = plain_verify (Inr False) \<rparr>"

definition raising_context :: crypt_context where
  "raising_context = \<lparr> ctx_hash = plain_hash, ctx_verify = plain_verify (Inl UnknownHashError) \<rparr>"

text \<open>A key named \<open>ci\<close>, created at instant 0 with secret \<open>S1\<close>, on a server at UTC.\<close>

definition utc_clock :: "datetime \<Rightarrow> clock" where
  "utc_clock t = \<lparr> instant = t, utcoffset = 0 \<rparr>"

definition ci_request :: APIKeyRequestModel where
  "ci_request = \<lparr> req_name = ''ci'', req_description = [], req_workspace = 1, req_user = 2 \<rparr>"

definition ci_created :: APIKeySchema where
  "ci_created =
     fst (from_request quiet_context
            \<lparr> fresh_uuid = 7, token_hex = ''S1'', salt = ''aa'' \<rparr> (utc_clock 0) ci_request)"

definition ci_rotated :: "clock \<Rightarrow> int \<Rightarrow> APIKeySchema" where
  "ci_rotated clk retain =
     fst (rotate quiet_context \<lparr> fresh_uuid = 0, token_hex = ''S2'', salt = ''bb'' \<rparr> clk
            ci_created \<lparr> rot_retain_period_minutes = retain \<rparr>)"

text \<open>
  The constructor call \<open>APIKeyUpdateModel(name=..., description=..., active=...)\<close>.
  Modelled from the spec: the decorator \<open>update_model\<close> of \<open>zenml.models.base_models\<close> is
  not among the sources; as section 4.3 of the specification writes the request,
  \<open>update(name?, description?, active?)\<close>, it makes every field optional and leaves the
  declared defaults as the classes give them. A field left out takes its declared default:
  \<open>name\<close> has none and becomes \<open>None\<close>, \<open>description\<close> has \<open>default=""\<close>,
  \<open>active\<close> has \<open>default=True\<close>. Strings longer than \<open>STR_FIELD_MAX_LENGTH\<close> (a
  constant of \<open>zenml.models.constants\<close>, taken as the parameter \<open>max_length\<close>) fail
  validation.
\<close>

definition new_APIKeyUpdateModel ::
  "nat \<Rightarrow> string option arg \<Rightarrow> string option arg \<Rightarrow> bool option arg
     \<Rightarrow> exn + APIKeyUpdateModel" where
  "new_APIKeyUpdateModel max_length name description active =
     (let n = (case name of Omitted \<Rightarrow> None | Given v \<Rightarrow> v);
          d = (case description of Omitted \<Rightarrow> Some [] | Given v \<Rightarrow> v);
          a = (case active of Omitted \<Rightarrow> Some True | Given v \<Rightarrow> v) in
      if (case n of Some x \<Rightarrow> length x > max_length | None \<Rightarrow> False)
         \<or> (case d of Some x \<Rightarrow> length x > max_length | None \<Rightarrow> False)
      then Inl ValidationError
      else Inr \<lparr> upd_name = n, upd_description = d, upd_active = a \<rparr>)"

text \<open>A key named \<open>svc\<close> with secret \<open>T1\<close>, created at instant 0 and deactivated at instant 3.\<close>

definition svc_created :: APIKeySchema where
  "svc_created =
     fst (from_request quiet_context
            \<lparr> fresh_uuid = 8, token_hex = ''T1'', salt = ''cc'' \<rparr> (utc_clock 0)
            \<lparr> req_name = ''svc'', req_description = [], req_workspace = 1, req_user = 2 \<rparr>)"

definition svc_deactivated :: APIKeySchema where
  "svc_deactivated =
     update (utc_clock 3) svc_created
       \<lparr> upd_name = None, upd_description = None, upd_active = Some False \<rparr>"

text \<open>Servers two hours east and five hours west of UTC.\<close>

definition east_clock :: "datetime \<Rightarrow> clock" where
  "east_clock t = \<lparr> instant = t, utcoffset = 7200000000 \<rparr>"

definition west_clock :: "datetime \<Rightarrow> clock" where
  "west_clock t = \<lparr> instant = t, utcoffset = - 18000000000 \<rparr>"

section \<open>Facts about the two hash slots\<close>

lemma to_internal_model_current_hash:
  "current_key_hash (to_internal_model s) = effective_current_hash s"
  by (simp add: current_key_hash_def to_internal_model_def effective_current_hash_def)

lemma inactive_previous_hash:
  "\<not> resp_active r \<Longrightarrow> previous_key_hash clk r = Inr dummy_hash"
  by (simp add: previous_key_hash_def split: option.splits)

lemma timedelta_minutes_in_range:
  "0 < m \<Longrightarrow> m div 1440 \<le> 999999999 \<Longrightarrow> timedelta_minutes m = Inr (m * 60000000)"
  by (simp add: timedelta_minutes_def)

lemma to_internal_model_previous_hash:
  assumes "schema_retain_period s div 1440 \<le> 999999999"
    and "effective_previous_hash s (datetime_now clk) = Some h"
  shows "previous_key_hash clk (to_internal_model s) = Inr h"
proof (cases "previous_secret_is_valid s (datetime_now clk)")
  case True
  with assms(2) have prev: "schema_previous_key s = Some h"
    by (simp add: effective_previous_hash_def)
  from True have "0 < schema_retain_period s"
    by (simp add: previous_secret_is_valid_def)
  with assms(1) have "timedelta_minutes (schema_retain_period s)
      = Inr (schema_retain_period s * 60000000)"
    by (simp add: timedelta_minutes_in_range)
  with True prev show ?thesis
    by (simp add: previous_key_hash_def to_internal_model_def previous_secret_is_valid_def)
next
  case False
  with assms(2) have h: "h = dummy_hash"
    by (simp add: effective_previous_hash_def)
  show ?thesis
  proof (cases "schema_active s \<and> 0 < schema_retain_period s")
    case True
    with assms(1) have "timedelta_minutes (schema_retain_period s)
        = Inr (schema_retain_period s * 60000000)"
      by (simp add: timedelta_minutes_in_range)
    with True False h show ?thesis
      by (simp add: previous_key_hash_def to_internal_model_def previous_secret_is_valid_def
               split: option.splits)
  next
    case False
    with h show ?thesis
      by (auto simp add: previous_key_hash_def to_internal_model_def split: option.splits)
  qed
qed

text \<open>
  A record of the lifecycle has a retain period other than 0 only after a rotation, which
  also fills the previous hash: wherever the policy accepts the previous secret, there is a
  previous hash to verify against.
\<close>

lemma lifecycle_retain_period:
  "lifecycle s \<Longrightarrow> schema_previous_key s = None \<Longrightarrow> schema_retain_period s = 0"
  by (induction rule: lifecycle.induct)
     (auto simp add: from_request_def update_def internal_update_def rotate_def Let_def
           split: if_splits)

lemma lifecycle_effective_previous_hash:
  assumes "lifecycle s"
  shows "\<exists>h. effective_previous_hash s now = Some h"
proof (cases "schema_previous_key s")
  case None
  with assms have "schema_retain_period s = 0"
    by (simp add: lifecycle_retain_period)
  then show ?thesis
    by (simp add: effective_previous_hash_def previous_secret_is_valid_def)
next
  case (Some h)
  then show ?thesis
    by (simp add: effective_previous_hash_def)
qed

text \<open>
  For an inactive record the result of \<open>verify_key\<close> is the verdict of the context on the
  dummy hash, whatever the record and the clock.
\<close>

lemma inactive_verify_key:
  assumes "\<not> schema_active s"
  shows "verify_key context clk (to_internal_model s) key = ctx_verify context key dummy_hash"
proof -
  have c: "current_key_hash (to_internal_model s) = dummy_hash"
    using assms by (simp add: to_internal_model_current_hash effective_current_hash_def)
  have "\<not> resp_active (to_internal_model s)"
    using assms by (simp add: to_internal_model_def)
  then have p: "previous_key_hash clk (to_internal_model s) = Inr dummy_hash"
    by (rule inactive_previous_hash)
  show ?thesis
    by (cases "ctx_verify context key dummy_hash") (simp_all add: verify_key_def c p)
qed

section \<open>The worked examples, evaluated\<close>

lemma to_internal_model_active [simp]:
  "resp_active (to_internal_model s) = schema_active s"
  by (simp add: to_internal_model_def)

lemma ci_created_value:
  "ci_created = \<lparr>schema_id = 7, schema_created = 0, schema_updated = 0,
    schema_name = ''ci'', schema_description = [],
    schema_key = ''$2b$aa$S1'', schema_previous_key = None,
    schema_retain_period = 0, schema_active = True, schema_last_used = 0,
    schema_last_rotated = 0, schema_workspace_id = 1, schema_user_id = 2\<rparr>"
  by (simp add: ci_created_def from_request_def Let_def quiet_context_def plain_hash_def
      utc_clock_def datetime_utcnow_def ci_request_def)

lemma ci_rotated_value:
  "ci_rotated clk retain = \<lparr>schema_id = 7, schema_created = 0, schema_updated = instant clk,
    schema_name = ''ci'', schema_description = [],
    schema_key = ''$2b$bb$S2'', schema_previous_key = Some ''$2b$aa$S1'',
    schema_retain_period = retain, schema_active = True, schema_last_used = 0,
    schema_last_rotated = instant clk, schema_workspace_id = 1, schema_user_id = 2\<rparr>"
  by (simp add: ci_rotated_def ci_created_value rotate_def Let_def quiet_context_def plain_hash_def
      datetime_utcnow_def)

lemma svc_created_value:
  "svc_created = \<lparr>schema_id = 8, schema_created = 0, schema_updated = 0,
    schema_name = ''svc'', schema_description = [],
    schema_key = ''$2b$cc$T1'', schema_previous_key = None,
    schema_retain_period = 0, schema_active = True, schema_last_used = 0,
    schema_last_rotated = 0, schema_workspace_id = 1, schema_user_id = 2\<rparr>"
  by (simp add: svc_created_def from_request_def Let_def quiet_context_def plain_hash_def
      utc_clock_def datetime_utcnow_def)

lemma svc_deactivated_value:
  "svc_deactivated = \<lparr>schema_id = 8, schema_created = 0, schema_updated = 3,
    schema_name = ''svc'', schema_description = [],
    schema_key = ''$2b$cc$T1'', schema_previous_key = None,
    schema_retain_period = 0, schema_active = False, schema_last_used = 0,
    schema_last_rotated = 0, schema_workspace_id = 1, schema_user_id = 2\<rparr>"
  by (simp add: svc_deactivated_def svc_created_value update_def utc_clock_def datetime_utcnow_def)

lemma quiet_verify:
  "ctx_verify quiet_context secret h =
     (if take 4 h = ''$2b$''
      then Inr (drop 1 (dropWhile (\<lambda>c. c \<noteq> CHR ''$'') (drop 4 h)) = secret)
      else Inr False)"
  by (simp add: quiet_context_def plain_verify_def)

lemma raising_verify:
  "ctx_verify raising_context secret h =
     (if take 4 h = ''$2b$''
      then Inr (drop 1 (dropWhile (\<lambda>c. c \<noteq> CHR ''$'') (drop 4 h)) = secret)
      else Inl UnknownHashError)"
  by (simp add: raising_context_def plain_verify_def)

section \<open>Verification\<close>

text \<open>
  What \<open>verify_key\<close> computes when both calls of \<open>context.verify\<close> return: the
  disjunction of the two verdicts, on the current hash of an active record and on the
  previous hash inside the window that the code reads at \<open>datetime.now()\<close>, the dummy hash
  standing in otherwise.
\<close>

lemma verify_key_when_both_calls_return:
  assumes "schema_retain_period s div 1440 \<le> 999999999"
    and "effective_previous_hash s (datetime_now clk) = Some previous_hash"
    and "ctx_verify context key (effective_current_hash s) = Inr current_ok"
    and "ctx_verify context key previous_hash = Inr previous_ok"
  shows "verify_key context clk (to_internal_model s) key = Inr (current_ok \<or> previous_ok)"
proof -
  have "previous_key_hash clk (to_internal_model s) = Inr previous_hash"
    using assms(1,2) by (rule to_internal_model_previous_hash)
  with assms(3,4) show ?thesis
    by (simp add: verify_key_def to_internal_model_current_hash)
qed

text \<open>
  Claim C1. The claim gives \<open>current_ok \<or> previous_ok\<close> for every record, the verdict on
  the dummy hash standing in for a slot that must not match. For an active key that was
  never rotated and the secret that matches its hash, that is \<open>True\<close>. \<open>verify_key\<close>
  hands the dummy hash of the empty previous slot to \<open>context.verify\<close>; where the context
  raises on it, as the \<open>CryptContext\<close> that \<open>verify_key\<close> builds does, the verification of
  the right secret raises that exception.
\<close>

theorem verify_key_raises_for_unrotated_key:
  assumes "schema_active s"
    and "schema_previous_key s = None"
    and "ctx_verify context key (schema_key s) = Inr current_ok"
    and "ctx_verify context key dummy_hash = Inl e"
  shows "verify_key context clk (to_internal_model s) key = Inl e"
proof -
  from assms(1) have "current_key_hash (to_internal_model s) = schema_key s"
    by (simp add: to_internal_model_current_hash effective_current_hash_def)
  moreover from assms(2) have "previous_key_hash clk (to_internal_model s) = Inr dummy_hash"
    by (simp add: previous_key_hash_def to_internal_model_def)
  ultimately show ?thesis
    using assms(3,4) by (simp add: verify_key_def)
qed

text \<open>
  The key \<open>ci\<close> after its creation, presented with its secret \<open>S1\<close>: the current hash
  matches and the verification raises. The second defect that separates \<open>verify_key\<close> from
  the claim is the clock of claim C3: five hours west of UTC and 11 minutes after a rotation
  with 10 minutes of retention, the policy at that instant gives the dummy hash for the
  previous slot, and \<open>verify_key\<close> returns \<open>True\<close> for the old secret.
\<close>

theorem verify_key_raises_for_unrotated_key_witness:
  "ctx_verify raising_context ''S1'' (effective_current_hash ci_created) = Inr True
   \<and> effective_previous_hash ci_created (instant (utc_clock 1)) = Some dummy_hash
   \<and> verify_key raising_context (utc_clock 1) (to_internal_model ci_created) ''S1''
       = Inl UnknownHashError
   \<and> ctx_verify raising_context ''S1'' (effective_current_hash (ci_rotated (west_clock 5) 10))
       = Inr False
   \<and> effective_previous_hash (ci_rotated (west_clock 5) 10) (instant (west_clock 660000005))
       = Some dummy_hash
   \<and> verify_key raising_context (west_clock 660000005)
       (to_internal_model (ci_rotated (west_clock 5) 10)) ''S1'' = Inr True"
  using verify_key_raises_for_unrotated_key
    [of ci_created raising_context "''S1''" True UnknownHashError "utc_clock 1"]
  by (simp add: ci_created_value ci_rotated_value raising_verify dummy_hash_def
      effective_current_hash_def effective_previous_hash_def previous_secret_is_valid_def
      west_clock_def utc_clock_def verify_key_def current_key_hash_def previous_key_hash_def
      to_internal_model_def timedelta_minutes_def datetime_now_def)

text \<open>
  Claim C2. For a record with \<open>active = false\<close> both slots hold the dummy hash, and the
  result of \<open>verify_key\<close> is what \<open>context.verify\<close> does with the dummy hash, whatever
  the hashes, the retain period, the timestamps and the clock. The claim says that this is
  \<open>False\<close>; with the \<open>CryptContext\<close> that \<open>verify_key\<close> builds it is the exception
  \<open>UnknownHashError\<close>.
\<close>

theorem inactive_key_verdict_is_dummy_verdict:
  assumes "\<not> schema_active s"
  shows "verify_key context clk (to_internal_model s) key = ctx_verify context key dummy_hash"
  using assms by (rule inactive_verify_key)

theorem inactive_key_verdict_is_dummy_verdict_witness:
  "\<not> schema_active svc_deactivated
   \<and> ctx_verify raising_context ''T1'' (schema_key svc_deactivated) = Inr True
   \<and> ctx_verify raising_context ''T1'' dummy_hash = Inl UnknownHashError
   \<and> verify_key raising_context (utc_clock 9) (to_internal_model svc_deactivated) ''T1''
       = Inl UnknownHashError"
  using inactive_key_verdict_is_dummy_verdict [of svc_deactivated raising_context "utc_clock 9" "''T1''"]
  by (simp add: svc_deactivated_value raising_verify dummy_hash_def)

text \<open>
  The window the code applies to the previous hash is the policy's, read at the local wall
  clock: the instant shifted by the offset of the server's time zone.
\<close>

lemma previous_key_hash_window:
  assumes "schema_retain_period s div 1440 \<le> 999999999"
    and "schema_previous_key s = Some hp" and "hp \<noteq> dummy_hash"
  shows "previous_key_hash clk (to_internal_model s) = Inr hp
         \<longleftrightarrow> previous_secret_is_valid s (instant clk + utcoffset clk)"
proof (cases "schema_active s \<and> 0 < schema_retain_period s")
  case True
  with assms(1) have "timedelta_minutes (schema_retain_period s)
      = Inr (schema_retain_period s * 60000000)"
    by (simp add: timedelta_minutes_in_range)
  with True assms(2,3) show ?thesis
    by (simp add: previous_key_hash_def to_internal_model_def previous_secret_is_valid_def
        datetime_now_def)
next
  case False
  with assms(2,3) show ?thesis
    by (auto simp add: previous_key_hash_def to_internal_model_def previous_secret_is_valid_def)
qed

text \<open>
  Claim C3. The claim measures the window from \<open>last_rotated\<close>, which \<open>rotate\<close> records
  with \<open>datetime.utcnow()\<close>; \<open>verify_key\<close> subtracts it from \<open>datetime.now()\<close>. On a
  server two hours east of UTC, a key rotated with 60 minutes of retention rejects the
  previous secret at the very instant of the rotation, though the policy accepts it there;
  five hours west of UTC, a key rotated with 10 minutes of retention still accepts the
  previous secret 11 minutes later, though the policy rejects it. With a context that raises
  on the dummy hash, the rejection in the east is that exception; the acceptance in the west
  is the same.
\<close>

theorem previous_key_window_reads_local_clock:
  "previous_secret_is_valid (ci_rotated (east_clock 5) 60) (instant (east_clock 5))
   \<and> previous_key_hash (east_clock 5) (to_internal_model (ci_rotated (east_clock 5) 60))
       = Inr dummy_hash
   \<and> verify_key quiet_context (east_clock 5) (to_internal_model (ci_rotated (east_clock 5) 60))
       ''S1'' = Inr False
   \<and> \<not> previous_secret_is_valid (ci_rotated (west_clock 5) 10) (instant (west_clock 660000005))
   \<and> verify_key quiet_context (west_clock 660000005)
       (to_internal_model (ci_rotated (west_clock 5) 10)) ''S1'' = Inr True
   \<and> verify_key raising_context (east_clock 5) (to_internal_model (ci_rotated (east_clock 5) 60))
       ''S1'' = Inl UnknownHashError
   \<and> verify_key raising_context (west_clock 660000005)
       (to_internal_model (ci_rotated (west_clock 5) 10)) ''S1'' = Inr True"
  by (simp add: ci_rotated_value east_clock_def west_clock_def previous_secret_is_valid_def
      previous_key_hash_def to_internal_model_def timedelta_minutes_def datetime_now_def
      verify_key_def current_key_hash_def quiet_verify raising_verify dummy_hash_def)

text \<open>
  Claim C4. A rotation with retain period 0 records the old current hash as the previous
  hash, and from then on, at every reading of the clock, the previous slot of \<open>verify_key\<close>
  holds the dummy hash. The claim says that the old secret then verifies \<open>False\<close>; where
  the context raises on the dummy hash, as the \<open>CryptContext\<close> that \<open>verify_key\<close> builds
  does, the verification of the old secret raises that exception.
\<close>

theorem rotate_without_retain_old_secret_raises:
  assumes "rotate context rnd clk s \<lparr> rot_retain_period_minutes = 0 \<rparr> = (s', new_key)"
    and "ctx_verify context old_key (schema_key s') = Inr r"
    and "ctx_verify context old_key dummy_hash = Inl e"
  shows "schema_previous_key s' = Some (schema_key s)
         \<and> previous_key_hash clk' (to_internal_model s') = Inr dummy_hash
         \<and> verify_key context clk' (to_internal_model s') old_key = Inl e"
proof -
  from assms(1) have prev: "schema_previous_key s' = Some (schema_key s)"
    and ret: "schema_retain_period s' = 0"
    by (auto simp add: rotate_def Let_def)
  from ret have slot: "previous_key_hash clk' (to_internal_model s') = Inr dummy_hash"
    by (simp add: previous_key_hash_def to_internal_model_def split: option.splits)
  have "current_key_hash (to_internal_model s') = schema_key s'
      \<or> current_key_hash (to_internal_model s') = dummy_hash"
    by (simp add: to_internal_model_current_hash effective_current_hash_def)
  with slot have "verify_key context clk' (to_internal_model s') old_key = Inl e"
    using assms(2,3) by (auto simp add: verify_key_def)
  with prev slot show ?thesis by simp
qed

theorem rotate_without_retain_old_secret_raises_witness:
  "schema_previous_key (ci_rotated (utc_clock 5) 0) = Some (schema_key ci_created)
   \<and> previous_key_hash (utc_clock 5) (to_internal_model (ci_rotated (utc_clock 5) 0))
       = Inr dummy_hash
   \<and> verify_key raising_context (utc_clock 5) (to_internal_model (ci_rotated (utc_clock 5) 0))
       ''S1'' = Inl UnknownHashError"
  using rotate_without_retain_old_secret_raises
    [of raising_context "\<lparr> fresh_uuid = 0, token_hex = ''S2'', salt = ''bb'' \<rparr>" "utc_clock 5"
        ci_created "ci_rotated (utc_clock 5) 0" "''S2''" "''S1''" False UnknownHashError
        "utc_clock 5"]
  by (simp add: ci_rotated_def rotate_def Let_def raising_verify dummy_hash_def
      quiet_context_def raising_context_def plain_hash_def plain_verify_def)

text \<open>
  Claim C8. \<open>verify_key\<close> hands the dummy hash, the empty string, to \<open>context.verify\<close>
  and has no handler around the call: where the context raises on a hash it cannot identify,
  as passlib's \<open>CryptContext\<close> does for every string that is not a bcrypt hash, the
  verification of an inactive record raises that exception instead of returning \<open>False\<close>.
\<close>

theorem verify_key_raises_on_unidentified_dummy:
  assumes "\<not> schema_active s"
    and "ctx_verify context key dummy_hash = Inl e"
  shows "verify_key context clk (to_internal_model s) key = Inl e"
  using assms
  by (simp add: verify_key_def to_internal_model_current_hash effective_current_hash_def)

theorem verify_key_raises_on_unidentified_dummy_witness:
  "verify_key raising_context (utc_clock 4) (to_internal_model svc_deactivated) ''T1''
     = Inl UnknownHashError"
  using verify_key_raises_on_unidentified_dummy
    [of svc_deactivated raising_context "''T1''" UnknownHashError "utc_clock 4"]
  by (simp add: svc_deactivated_value raising_verify dummy_hash_def)

section \<open>Updates\<close>

text \<open>
  What \<open>update\<close> leaves alone: the hashes, the retain period, \<open>last_used\<close> and
  \<open>last_rotated\<close> always, and each of name, description and active when the request
  holds \<open>None\<close> for it.
\<close>

lemma update_frame:
  "schema_id (update clk s u) = schema_id s
   \<and> schema_key (update clk s u) = schema_key s
   \<and> schema_previous_key (update clk s u) = schema_previous_key s
   \<and> schema_retain_period (update clk s u) = schema_retain_period s
   \<and> schema_last_used (update clk s u) = schema_last_used s
   \<and> schema_last_rotated (update clk s u) = schema_last_rotated s
   \<and> schema_created (update clk s u) = schema_created s
   \<and> (upd_name u = None \<longrightarrow> schema_name (update clk s u) = schema_name s)
   \<and> (upd_description u = None \<longrightarrow> schema_description (update clk s u) = schema_description s)
   \<and> (upd_active u = None \<longrightarrow> schema_active (update clk s u) = schema_active s)"
  by (simp add: update_def)

text \<open>
  Claim C9. An update request built without \<open>active\<close> does not leave the flag alone: the
  field's declared default is \<open>True\<close>, \<open>update\<close> finds a value that is not \<open>None\<close>, and
  the record becomes active. Renaming a deactivated key reactivates it.
\<close>

theorem update_without_active_activates:
  assumes "new_APIKeyUpdateModel max_length name description Omitted = Inr u"
  shows "schema_active (update clk s u)"
  using assms
  by (auto simp add: new_APIKeyUpdateModel_def update_def Let_def split: if_splits)

theorem update_without_active_activates_witness:
  "\<not> schema_active svc_deactivated
   \<and> new_APIKeyUpdateModel 255 (Given (Some ''svc-2'')) Omitted Omitted
       = Inr \<lparr> upd_name = Some ''svc-2'', upd_description = Some [], upd_active = Some True \<rparr>
   \<and> schema_active (update (utc_clock 9) svc_deactivated
        \<lparr> upd_name = Some ''svc-2'', upd_description = Some [], upd_active = Some True \<rparr>)"
  using update_without_active_activates
    [of 255 "Given (Some ''svc-2'')" Omitted
        "\<lparr> upd_name = Some ''svc-2'', upd_description = Some [], upd_active = Some True \<rparr>"
        "utc_clock 9" svc_deactivated]
  by (simp add: new_APIKeyUpdateModel_def svc_deactivated_value)

section \<open>Base64, UUID strings and the JSON payload\<close>

lemma b64_val_char: "n < 64 \<Longrightarrow> b64_val (b64_char n) = Some n"
  unfolding b64_val_def b64_char_def Let_def by (simp; arith)

lemma b64_char_not_pad: "n < 64 \<Longrightarrow> b64_char n \<noteq> CHR ''=''"
proof
  assume "n < 64" and "b64_char n = CHR ''=''"
  then have "b64_val (CHR ''='') = Some n"
    using b64_val_char by metis
  then show False
    by (simp add: b64_val_def)
qed

lemma byte_lt: "byte c < 256"
  by (simp add: byte_def)

lemma char_of_byte: "char_of (byte c) = c"
  by (simp add: byte_def)

lemma sextet_bounds:
  "byte a div 4 < 64" "byte a mod 4 * 16 < 64" "byte a mod 4 * 16 + byte b div 16 < 64"
  "byte b mod 16 * 4 < 64" "byte b mod 16 * 4 + byte c div 64 < 64" "byte c mod 64 < 64"
  using byte_lt [of a] byte_lt [of b] byte_lt [of c] by simp_all

lemma char_of_eq: "n = byte c \<Longrightarrow> char_of n = c"
  by (simp add: byte_def)

lemma b64decode_b64encode: "b64decode (b64encode s) = Some s"
proof (induction s rule: b64encode.induct)
  case 1
  show ?case by simp
next
  case (2 a)
  show ?case
    using byte_lt [of a]
    by (simp add: b64_val_char sextet_bounds) (rule char_of_eq, simp)
next
  case (3 a b)
  show ?case
    using byte_lt [of a] byte_lt [of b]
    by (simp add: b64_val_char sextet_bounds b64_char_not_pad)
       (intro conjI char_of_eq; simp)
next
  case (4 a b c rest)
  then show ?case
    using byte_lt [of a] byte_lt [of b] byte_lt [of c]
    by (simp add: b64_val_char sextet_bounds b64_char_not_pad)
       (intro conjI char_of_eq; simp)
qed

lemma hex_val_digit: "d < 16 \<Longrightarrow> hex_val (hex_digit d) = Some d"
  unfolding hex_val_def hex_digit_def Let_def by (simp; arith)

lemma hex_digit_not_hyphen: "d < 16 \<Longrightarrow> hex_digit d \<noteq> CHR ''-''"
proof
  assume "d < 16" and "hex_digit d = CHR ''-''"
  then have "hex_val (CHR ''-'') = Some d"
    using hex_val_digit by metis
  then show False
    by (simp add: hex_val_def)
qed

lemma hex_parse_append:
  "hex_parse acc (xs @ ys) = (case hex_parse acc xs of None \<Rightarrow> None | Some v \<Rightarrow> hex_parse v ys)"
  by (induction xs arbitrary: acc) (auto split: option.splits)

lemma hex_parse_hex_of: "hex_parse acc (hex_of w n) = Some (acc * 16 ^ w + n mod 16 ^ w)"
proof (induction w arbitrary: n)
  case 0
  show ?case by simp
next
  case (Suc w)
  have "n mod (16 * 16 ^ w) = 16 * (n div 16 mod 16 ^ w) + n mod 16"
    by (rule mod_mult2_eq)
  with Suc show ?case
    by (simp add: hex_parse_append hex_val_digit algebra_simps)
qed

lemma length_hex_of [simp]: "length (hex_of w n) = w"
  by (induction w arbitrary: n) simp_all

lemma hex_of_no_hyphen: "CHR ''-'' \<notin> set (hex_of w n)"
proof (induction w arbitrary: n)
  case 0
  show ?case by simp
next
  case (Suc w)
  have "hex_digit (n mod 16) \<noteq> CHR ''-''"
    by (rule hex_digit_not_hyphen) simp
  with Suc show ?case by auto
qed

lemma filter_hex_of: "filter (\<lambda>c. c \<noteq> CHR ''-'') (hex_of w n) = hex_of w n"
  by (rule filter_True) (use hex_of_no_hyphen in auto)

lemma take_take_drop: "take a h @ take b (drop a h) = take (a + b) h"
  by (simp add: take_add)

lemma regroup:
  assumes "length h = 32"
  shows "take 8 h @ take 4 (drop 8 h) @ take 4 (drop 12 h) @ take 4 (drop 16 h) @ drop 20 h = h"
proof -
  have "take 8 h @ take 4 (drop 8 h) = take 12 h"
    using take_take_drop [of 8 h 4] by simp
  moreover have "take 12 h @ take 4 (drop 12 h) = take 16 h"
    using take_take_drop [of 12 h 4] by simp
  moreover have "take 16 h @ take 4 (drop 16 h) = take 20 h"
    using take_take_drop [of 16 h 4] by simp
  ultimately have "take 8 h @ take 4 (drop 8 h) @ take 4 (drop 12 h) @ take 4 (drop 16 h)
      = take 20 h"
    by (metis append.assoc)
  then show ?thesis
    by (metis append.assoc append_take_drop_id)
qed

lemma filter_uuid_str: "filter (\<lambda>c. c \<noteq> CHR ''-'') (uuid_str u) = hex_of 32 (unat u)"
proof -
  let ?h = "hex_of 32 (unat u)"
  have f: "\<And>xs. set xs \<subseteq> set ?h \<Longrightarrow> filter (\<lambda>c. c \<noteq> CHR ''-'') xs = xs"
    by (rule filter_True) (use hex_of_no_hyphen in auto)
  have "filter (\<lambda>c. c \<noteq> CHR ''-'') (uuid_str u)
      = take 8 ?h @ take 4 (drop 8 ?h) @ take 4 (drop 12 ?h) @ take 4 (drop 16 ?h) @ drop 20 ?h"
    unfolding uuid_str_def Let_def
    by (simp add: f set_take_subset set_drop_subset
        subset_trans [OF set_take_subset set_drop_subset])
  then show ?thesis
    by (simp add: regroup)
qed

lemma parse_uuid_str: "parse_uuid (uuid_str u) = Some u"
proof -
  have "unat u < 16 ^ 32"
    using unsigned_less [of u] by simp
  then show ?thesis
    by (simp add: parse_uuid_def filter_uuid_str hex_parse_hex_of)
qed

lemma hex_of_4: "hex_of 4 n =
  [hex_digit (n div 16 div 16 div 16 mod 16), hex_digit (n div 16 div 16 mod 16),
   hex_digit (n div 16 mod 16), hex_digit (n mod 16)]"
proof -
  have four: "(4::nat) = Suc (Suc (Suc (Suc 0)))"
    by simp
  show ?thesis
    unfolding four by simp
qed

lemma lex_esc_char:
  "lex (InString acc) toks (esc_char c @ rest) = lex (InString (acc @ [c])) toks rest"
proof (cases "byte c < 32")
  case True
  then have d: "byte c div 16 div 16 = 0" "byte c div 16 < 16"
    by simp_all
  have u: "utf8_of_codepoint (byte c div 16 * 16 + byte c mod 16) = Some [c]"
    using True by (simp add: utf8_of_codepoint_def char_of_byte)
  show ?thesis
    using True u
    by (simp add: esc_char_def hex_of_4 d hex_val_digit unescape_def byte_def)
next
  case False
  then show ?thesis
    by (auto simp add: esc_char_def unescape_def byte_def)
qed

lemma lex_string_body:
  "lex (InString acc) toks (concat (map esc_char s) @ CHR 0x22 # rest)
     = lex Outside (Str (acc @ s) # toks) rest"
proof (induction s arbitrary: acc)
  case Nil
  show ?case by simp
next
  case (Cons c s)
  have "lex (InString acc) toks (concat (map esc_char (c # s)) @ CHR 0x22 # rest)
      = lex (InString acc) toks (esc_char c @ (concat (map esc_char s) @ CHR 0x22 # rest))"
    by simp
  also have "\<dots> = lex (InString (acc @ [c])) toks (concat (map esc_char s) @ CHR 0x22 # rest)"
    by (rule lex_esc_char)
  also have "\<dots> = lex Outside (Str ((acc @ [c]) @ s) # toks) rest"
    by (rule Cons.IH)
  finally show ?case by simp
qed

lemma lex_json_string:
  "lex Outside toks (json_string s @ rest) = lex Outside (Str s # toks) rest"
  using lex_string_body [of "[]" toks s rest]
  by (simp add: json_string_def whitespace_def)

lemma lex_APIKey_json:
  "lex Outside [] (APIKey_json k)
     = Some [LBrace, Str ''id'', Colon, Str (uuid_str (apikey_id k)), Comma,
             Str ''key'', Colon, Str (apikey_key k), RBrace]"
  by (simp add: APIKey_json_def whitespace_def lex_json_string byte_def)

lemma parse_raw_json: "APIKey_parse_raw (APIKey_json k) = Inr k"
  by (simp add: APIKey_parse_raw_def lex_APIKey_json parse_object_def parse_uuid_str)

lemma utf8_valid_ascii_append: "ascii a \<Longrightarrow> utf8_valid (a @ s) = utf8_valid s"
  by (induction a) (simp_all add: ascii_def)

lemma byte_hex_digit: "d < 16 \<Longrightarrow> byte (hex_digit d) < 128"
  by (simp add: hex_digit_def byte_def)

lemma ascii_hex_of: "ascii (hex_of w n)"
  by (induction w arbitrary: n) (simp_all add: ascii_def byte_hex_digit)

lemma ascii_append: "ascii (a @ b) \<longleftrightarrow> ascii a \<and> ascii b"
  by (simp add: ascii_def)

lemma ascii_esc_char: "byte c < 128 \<Longrightarrow> ascii (esc_char c)"
  using ascii_hex_of [of 4 "byte c"]
  by (simp add: esc_char_def ascii_def byte_def)

lemma esc_char_not_ascii:
  assumes "\<not> byte c < 128"
  shows "esc_char c = [c]"
proof -
  have ne: "c \<noteq> d" if "byte d < 128" for d
    using assms that by auto
  have "c \<noteq> CHR 0x22" "c \<noteq> CHR 0x5C" "c \<noteq> CHR 0x0A" "c \<noteq> CHR 0x0D" "c \<noteq> CHR 0x09"
    "c \<noteq> CHR 0x08" "c \<noteq> CHR 0x0C"
    by (rule ne, simp add: byte_def)+
  moreover have "\<not> byte c < 32"
    using assms by simp
  ultimately show ?thesis
    by (simp only: esc_char_def if_False)
qed

lemma continuation_esc: "continuation c \<Longrightarrow> esc_char c = [c]"
  by (rule esc_char_not_ascii) (simp add: continuation_def)

lemma utf8_valid_escape:
  "utf8_valid s \<Longrightarrow> utf8_valid t \<Longrightarrow> utf8_valid (concat (map esc_char s) @ t)"
proof (induction "length s" arbitrary: s rule: less_induct)
  case less
  show ?case
  proof (cases s)
    case Nil
    with less.prems show ?thesis by simp
  next
    case (Cons c cs)
    show ?thesis
    proof (cases "byte c < 128")
      case True
      with less.prems(1) Cons have "utf8_valid cs" by simp
      with less.hyps [of cs] less.prems(2) Cons have "utf8_valid (concat (map esc_char cs) @ t)" by simp
      with True Cons show ?thesis
        by (simp add: utf8_valid_ascii_append ascii_esc_char)
    next
      case False
      then have e: "esc_char c = [c]" by (rule esc_char_not_ascii)
      consider (two) "194 \<le> byte c" "byte c \<le> 223"
        | (three) "224 \<le> byte c" "byte c \<le> 239"
        | (four) "240 \<le> byte c" "byte c \<le> 244"
        using less.prems(1) Cons False by (simp split: if_splits)
      then show ?thesis
      proof cases
        case two
        with less.prems(1) Cons False obtain c1 r where cs: "cs = c1 # r"
          and c1: "continuation c1" and r: "utf8_valid r"
          by (cases cs) auto
        from less.hyps [of r] less.prems(2) r cs Cons have "utf8_valid (concat (map esc_char r) @ t)" by simp
        with two False c1 show ?thesis
          by (simp add: Cons cs e continuation_esc)
      next
        case three
        with less.prems(1) Cons False obtain c1 c2 r where cs: "cs = c1 # c2 # r"
          and c1: "continuation c1" and c2: "continuation c2" and r: "utf8_valid r"
          and lo: "if byte c = 224 then 160 \<le> byte c1 else True"
          and hi: "if byte c = 237 then byte c1 \<le> 159 else True"
          by (cases cs; cases "tl cs") auto
        from less.hyps [of r] less.prems(2) r cs Cons have "utf8_valid (concat (map esc_char r) @ t)" by simp
        with three False c1 c2 lo hi show ?thesis
          by (simp add: Cons cs e continuation_esc)
      next
        case four
        with less.prems(1) Cons False obtain c1 c2 c3 r where cs: "cs = c1 # c2 # c3 # r"
          and c1: "continuation c1" and c2: "continuation c2" and c3: "continuation c3"
          and r: "utf8_valid r"
          and lo: "if byte c = 240 then 144 \<le> byte c1 else True"
          and hi: "if byte c = 244 then byte c1 \<le> 143 else True"
          by (cases cs; cases "tl cs"; cases "tl (tl cs)") auto
        from less.hyps [of r] less.prems(2) r cs Cons have "utf8_valid (concat (map esc_char r) @ t)" by simp
        with four False c1 c2 c3 lo hi show ?thesis
          by (simp add: Cons cs e continuation_esc)
      qed
    qed
  qed
qed

lemma ascii_utf8_valid: "ascii s \<Longrightarrow> utf8_valid s"
  using utf8_valid_ascii_append [of s "[]"] by simp

lemma ascii_take: "ascii s \<Longrightarrow> ascii (take n s)"
  unfolding ascii_def list_all_iff using set_take_subset [of n s] by blast

lemma ascii_drop: "ascii s \<Longrightarrow> ascii (drop n s)"
  unfolding ascii_def list_all_iff using set_drop_subset [of n s] by blast

lemma ascii_uuid_str: "ascii (uuid_str u)"
proof -
  have hy: "ascii ''-''"
    by (simp add: ascii_def byte_def)
  show ?thesis
    unfolding uuid_str_def Let_def
    by (intro ascii_append [THEN iffD2] conjI ascii_take ascii_drop ascii_hex_of hy)
qed

lemma ascii_escape: "ascii s \<Longrightarrow> ascii (concat (map esc_char s))"
  by (induction s) (simp_all add: ascii_def ascii_esc_char [unfolded ascii_def])

lemma ascii_json_string: "ascii s \<Longrightarrow> ascii (json_string s)"
  using ascii_escape [of s] by (simp add: json_string_def ascii_def byte_def)

lemma utf8_valid_APIKey_json:
  assumes "utf8_valid (apikey_key k)"
  shows "utf8_valid (APIKey_json k)"
proof -
  have tail: "utf8_valid [CHR 0x22, CHR ''}'']"
    by (simp add: byte_def)
  have "utf8_valid (concat (map esc_char (apikey_key k)) @ [CHR 0x22, CHR ''}''])"
    using assms tail by (rule utf8_valid_escape)
  moreover have "ascii (''{'' @ [CHR 0x22] @ ''id'' @ [CHR 0x22] @ '': ''
      @ json_string (uuid_str (apikey_id k)) @ '', '' @ [CHR 0x22] @ ''key'' @ [CHR 0x22]
      @ '': '' @ [CHR 0x22])"
    using ascii_json_string [OF ascii_uuid_str, of "apikey_id k"]
    by (simp add: ascii_def byte_def)
  ultimately have "utf8_valid ((''{'' @ [CHR 0x22] @ ''id'' @ [CHR 0x22] @ '': ''
      @ json_string (uuid_str (apikey_id k)) @ '', '' @ [CHR 0x22] @ ''key'' @ [CHR 0x22]
      @ '': '' @ [CHR 0x22]) @ concat (map esc_char (apikey_key k)) @ [CHR 0x22, CHR ''}''])"
    by (simp only: utf8_valid_ascii_append)
  then show ?thesis
    by (simp add: APIKey_json_def json_string_def)
qed

lemma b64_decode_b64_encode: "utf8_valid t \<Longrightarrow> b64_decode (b64_encode t) = Inr t"
  by (simp add: b64_decode_def b64_encode_def b64decode_b64encode)

lemma decode_encode:
  "utf8_valid (apikey_key k) \<Longrightarrow> decode_api_key (encode k) = Inr k"
  by (simp add: decode_api_key_def decode_api_key_with_def encode_def b64_decode_b64_encode utf8_valid_APIKey_json
      parse_raw_json)

lemma length_b64encode: "length s \<le> length (b64encode s)"
  by (induction s rule: b64encode.induct) simp_all

lemma length_esc_char: "1 \<le> length (esc_char c)"
  by (simp add: esc_char_def)

lemma length_escape: "length s \<le> length (concat (map esc_char s))"
proof (induction s)
  case Nil
  show ?case by simp
next
  case (Cons c s)
  with length_esc_char [of c] show ?case by simp
qed

lemma encode_longer: "length (apikey_key k) < length (encode k)"
proof -
  have "length (apikey_key k) < length (APIKey_json k)"
    using length_escape [of "apikey_key k"] by (simp add: APIKey_json_def json_string_def)
  also have "\<dots> \<le> length (encode k)"
    by (simp add: encode_def b64_encode_def length_b64encode)
  finally show ?thesis .
qed

section \<open>The bearer token\<close>

text \<open>
  Claim C6. Decoding an encoded token gives back the id and the raw secret, for every id and
  every secret that is text (well-formed UTF-8).
\<close>

theorem decode_api_key_encode:
  assumes "utf8_valid (apikey_key k)"
  shows "decode_api_key (encode k) = Inr k"
  using assms by (rule decode_encode)

theorem decode_api_key_encode_witness:
  "decode_api_key (encode \<lparr> apikey_id = 7, apikey_key = ''S1'' \<rparr>)
     = Inr \<lparr> apikey_id = 7, apikey_key = ''S1'' \<rparr>"
  using decode_api_key_encode [of "\<lparr> apikey_id = 7, apikey_key = ''S1'' \<rparr>"]
  by (simp add: byte_def)

text \<open>
  Claim C7. Whatever makes the decoding fail, and whatever the two helpers raise, the error
  is the one \<open>ValueError("Invalid API key.")\<close>.
\<close>

theorem decode_api_key_generic_error:
  assumes "decode_api_key_with b64_decode_fn parse_raw_fn encoded_key = Inl e"
  shows "e = ValueError ''Invalid API key.''"
  using assms by (auto simp add: decode_api_key_with_def split: sum.splits)

text \<open>
  Four tokens that fail for four reasons: characters outside the base64 alphabet, bytes that
  are not UTF-8, text that is not JSON, and a JSON object without the two members.
\<close>

lemma decode_failure_causes:
  "b64_decode ''!!'' = Inl Base64Error"
  "b64_decode ''/w=='' = Inl UnicodeDecodeError"
  "b64_decode ''ew=='' = Inr ''{''" "APIKey_parse_raw ''{'' = Inl JSONDecodeError"
  "b64_decode ''e30='' = Inr ''{}''" "APIKey_parse_raw ''{}'' = Inl ValidationError"
  by code_simp+

theorem decode_api_key_generic_error_witness:
  "decode_api_key ''!!'' = Inl (ValueError ''Invalid API key.'')
   \<and> decode_api_key ''/w=='' = Inl (ValueError ''Invalid API key.'')
   \<and> decode_api_key ''ew=='' = Inl (ValueError ''Invalid API key.'')
   \<and> decode_api_key ''e30='' = Inl (ValueError ''Invalid API key.'')"
  using decode_api_key_generic_error
    [of b64_decode APIKey_parse_raw "''!!''" "ValueError ''Invalid API key.''"]
  by (simp add: decode_api_key_def decode_api_key_with_def decode_failure_causes)

text \<open>
  Claim C10. \<open>set_key\<close> stores the encoded token of the response's id and the raw
  secret; the stored value is not the raw secret, and decoding it gives the id and the raw
  secret.
\<close>

theorem set_key_stores_encoded_token:
  assumes "utf8_valid key"
  shows "resp_key (set_key self key) = Some (encode \<lparr> apikey_id = resp_id self, apikey_key = key \<rparr>)
         \<and> encode \<lparr> apikey_id = resp_id self, apikey_key = key \<rparr> \<noteq> key
         \<and> decode_api_key (encode \<lparr> apikey_id = resp_id self, apikey_key = key \<rparr>)
             = Inr \<lparr> apikey_id = resp_id self, apikey_key = key \<rparr>"
proof -
  let ?k = "\<lparr> apikey_id = resp_id self, apikey_key = key \<rparr>"
  have "length (apikey_key ?k) < length (encode ?k)"
    by (rule encode_longer)
  then have "encode ?k \<noteq> key"
    by auto
  moreover have "decode_api_key (encode ?k) = Inr ?k"
    using assms by (simp add: decode_encode)
  ultimately show ?thesis
    by (simp add: set_key_def)
qed

theorem set_key_stores_encoded_token_witness:
  "resp_key (set_key (to_model ci_created) ''S1'')
     = Some (encode \<lparr> apikey_id = 7, apikey_key = ''S1'' \<rparr>)
   \<and> encode \<lparr> apikey_id = 7, apikey_key = ''S1'' \<rparr> \<noteq> ''S1''
   \<and> decode_api_key (encode \<lparr> apikey_id = 7, apikey_key = ''S1'' \<rparr>)
       = Inr \<lparr> apikey_id = 7, apikey_key = ''S1'' \<rparr>"
  using set_key_stores_encoded_token [of "''S1''" "to_model ci_created"]
  by (simp add: byte_def to_model_def ci_created_value)

section \<open>Rotation from the command line\<close>

text \<open>
  The rows that the command leaves in the store do not depend on \<open>retain\<close>.
\<close>

lemma rotate_api_key_ignores_retain:
  "map_sum id fst (rotate_api_key context rnd clk store name_or_id retain)
     = map_sum id fst (rotate_api_key context rnd clk store name_or_id 0)"
  by (simp add: rotate_api_key_def split: sum.splits prod.splits)

text \<open>
  Claim C5. The command \<open>rotate_api_key\<close> does not pass \<open>retain\<close> to the client.
  Rotating the key \<open>ci\<close> with \<open>--retain 600\<close> on a server at UTC stores retain period 0
  and declares that the previous key remains valid for 600 minutes; at the instant of the
  rotation the new secret verifies and the old one does not. With a context that raises on
  the dummy hash the store is the same, and the old secret is refused by that exception.
\<close>

theorem rotate_api_key_drops_retain:
  "rotate_api_key quiet_context \<lparr> fresh_uuid = 0, token_hex = ''S2'', salt = ''bb'' \<rparr>
       (utc_clock 5) [ci_created] ''ci'' 600
     = Inr ([ci_rotated (utc_clock 5) 0],
            [Rotated ''ci'',
             NewKeyValue (Some (encode \<lparr> apikey_id = 7, apikey_key = ''S2'' \<rparr>)),
             PreviousRemainsValid 600])
   \<and> verify_key quiet_context (utc_clock 5) (to_internal_model (ci_rotated (utc_clock 5) 0))
       ''S2'' = Inr True
   \<and> verify_key quiet_context (utc_clock 5) (to_internal_model (ci_rotated (utc_clock 5) 0))
       ''S1'' = Inr False
   \<and> rotate_api_key raising_context \<lparr> fresh_uuid = 0, token_hex = ''S2'', salt = ''bb'' \<rparr>
         (utc_clock 5) [ci_created] ''ci'' 600
       = Inr ([ci_rotated (utc_clock 5) 0],
              [Rotated ''ci'',
               NewKeyValue (Some (encode \<lparr> apikey_id = 7, apikey_key = ''S2'' \<rparr>)),
               PreviousRemainsValid 600])
   \<and> verify_key raising_context (utc_clock 5) (to_internal_model (ci_rotated (utc_clock 5) 0))
       ''S1'' = Inl UnknownHashError"
proof -
  have "rotate quiet_context \<lparr> fresh_uuid = 0, token_hex = ''S2'', salt = ''bb'' \<rparr>
      (utc_clock 5) ci_created \<lparr> rot_retain_period_minutes = 0 \<rparr>
      = (ci_rotated (utc_clock 5) 0, ''S2'')"
    by (simp add: ci_rotated_def rotate_def Let_def)
  then have "rotate_api_key quiet_context \<lparr> fresh_uuid = 0, token_hex = ''S2'', salt = ''bb'' \<rparr>
       (utc_clock 5) [ci_created] ''ci'' 600
     = Inr ([ci_rotated (utc_clock 5) 0],
            [Rotated ''ci'',
             NewKeyValue (Some (encode \<lparr> apikey_id = 7, apikey_key = ''S2'' \<rparr>)),
             PreviousRemainsValid 600])"
    by (simp add: rotate_api_key_def Client_rotate_api_key_def new_APIKeyRotateRequestModel_def
        set_key_def to_model_def ci_rotated_value)
       (simp add: ci_created_value)
  moreover have "verify_key quiet_context (utc_clock 5)
      (to_internal_model (ci_rotated (utc_clock 5) 0)) ''S2'' = Inr True"
    by (simp add: verify_key_def current_key_hash_def previous_key_hash_def to_internal_model_def
        ci_rotated_value quiet_verify dummy_hash_def)
  moreover have "verify_key quiet_context (utc_clock 5)
      (to_internal_model (ci_rotated (utc_clock 5) 0)) ''S1'' = Inr False"
    by (simp add: verify_key_def current_key_hash_def previous_key_hash_def to_internal_model_def
        ci_rotated_value quiet_verify dummy_hash_def)
  moreover have "rotate raising_context \<lparr> fresh_uuid = 0, token_hex = ''S2'', salt = ''bb'' \<rparr>
      (utc_clock 5) ci_created \<lparr> rot_retain_period_minutes = 0 \<rparr>
      = (ci_rotated (utc_clock 5) 0, ''S2'')"
    by (simp add: ci_rotated_def rotate_def Let_def quiet_context_def raising_context_def)
  then have "rotate_api_key raising_context
       \<lparr> fresh_uuid = 0, token_hex = ''S2'', salt = ''bb'' \<rparr>
       (utc_clock 5) [ci_created] ''ci'' 600
     = Inr ([ci_rotated (utc_clock 5) 0],
            [Rotated ''ci'',
             NewKeyValue (Some (encode \<lparr> apikey_id = 7, apikey_key = ''S2'' \<rparr>)),
             PreviousRemainsValid 600])"
    by (simp add: rotate_api_key_def Client_rotate_api_key_def new_APIKeyRotateRequestModel_def
        set_key_def to_model_def ci_rotated_value)
       (simp add: ci_created_value)
  moreover have "verify_key raising_context (utc_clock 5)
      (to_internal_model (ci_rotated (utc_clock 5) 0)) ''S1'' = Inl UnknownHashError"
    by (simp add: verify_key_def current_key_hash_def previous_key_hash_def to_internal_model_def
        ci_rotated_value raising_verify dummy_hash_def)
  ultimately show ?thesis
    by simp
qed

end
